theory Spec2Isabelle
  imports Main "HOL-Library.Sublist"
begin

section \<open>EasyGuide: data model\<close>

text \<open>
  A shallow embedding of \<^verbatim>\<open>pyro/contrib/easyguide/easyguide.py\<close>. Python exceptions are
  values of \<open>error\<close>; every operation on the guide returns its result (or the error raised)
  together with the state it leaves behind, because a Python exception does not undo the
  mutations made before it.
\<close>

datatype error =
    NotImplementedError
  | ValueError
  | AttributeError
  | KeyError
  | IndexError
  | AssertionError
  | RuntimeError
  | ZeroDivisionError
  | ReError

subsection \<open>Tensors\<close>

text \<open>
  A tensor is its shape and its elements in row-major order. \<^verbatim>\<open>torch.Size(s).numel()\<close> is the
  product of the entries of \<open>s\<close>.
\<close>

record 'a tensor =
  shape :: "nat list"
  data :: "'a list"

definition numel :: "nat list \<Rightarrow> nat" where
  "numel s = prod_list s"

definition wf_tensor :: "'a tensor \<Rightarrow> bool" where
  "wf_tensor t = (length (data t) = numel (shape t))"

text \<open>
  Python resolves an index \<open>i\<close> into a sequence of length \<open>n\<close> by counting a negative index from
  the end and raising \<^verbatim>\<open>IndexError\<close> outside \<open>-n \<le> i < n\<close>; torch resolves a dimension
  argument the same way.
\<close>

definition py_index :: "int \<Rightarrow> nat \<Rightarrow> error + nat" where
  "py_index i n =
     (let j = (if i < 0 then i + int n else i)
      in if 0 \<le> j \<and> j < int n then Inr (nat j) else Inl IndexError)"

subsection \<open>Frames, sites, plates, groups\<close>

text \<open>
  Modelled from the spec: the batching-context frame (\<^verbatim>\<open>CondIndepStackFrame\<close>) is declared
  outside this file; the code reads its \<^verbatim>\<open>name\<close>, \<^verbatim>\<open>dim\<close> and \<^verbatim>\<open>vectorized\<close> attributes, and
  compares frames by value when it intersects the frame sets of a group.
\<close>

record frame =
  frame_name :: string
  frame_dim :: int
  frame_size :: int
  vectorized :: bool

text \<open>
  Modelled from the spec: a site of the recorded execution. \<open>is_stochastic\<close> says whether the
  trace's \<^verbatim>\<open>iter_stochastic_nodes\<close> yields the node; \<open>fn_batch_shape\<close> and \<open>fn_event_shape\<close> are
  the shapes of the site's distribution \<^verbatim>\<open>site["fn"]\<close>, and \<open>site_value\<close> is \<^verbatim>\<open>site["value"]\<close>.
\<close>

record 'a site =
  site_name :: string
  is_stochastic :: bool
  fn_batch_shape :: "nat list"
  fn_event_shape :: "nat list"
  cond_indep_stack :: "frame list"
  site_value :: "'a tensor"


text \<open>
  Modelled from the spec: the batching-context object built by \<^verbatim>\<open>pyro.plate\<close>, with the
  attributes \<^verbatim>\<open>size\<close>, \<^verbatim>\<open>subsample_size\<close> and \<^verbatim>\<open>dim\<close> that the code reads.
\<close>

record plate_obj =
  plate_name :: string
  plate_size :: int
  plate_subsample_size :: int
  plate_dim :: int

text \<open>The arguments of \<^verbatim>\<open>EasyGuide.plate\<close> after the name; each defaults to \<^verbatim>\<open>None\<close>.\<close>

record plate_args =
  arg_size :: "int option"
  arg_subsample_size :: "int option"
  arg_subsample :: "nat list option"

definition no_args :: plate_args where
  "no_args = \<lparr>arg_size = None, arg_subsample_size = None, arg_subsample = None\<rparr>"

record 'a group_obj =
  group_sites :: "'a site list"
  group_frames :: "frame list"
  group_event_shape :: "nat list"

text \<open>
  A Python object is its identity together with its attributes: identities are numbers
  handed out by a counter, so two references are the same object exactly when their
  identities are equal, and a newly constructed object is distinct from every earlier one.

  The state: the attributes of one \<^verbatim>\<open>EasyGuide\<close> instance (\<open>prototype_trace\<close>, \<open>frames\<close>,
  \<open>groups\<close>, \<open>plates\<close>), the identity counter, and the two pieces of global state the code
  reads and writes: \<^verbatim>\<open>runtime._PYRO_STACK\<close> (the identities of the active plates) and the
  parameter store.
\<close>

record 'a state =
  prototype_trace :: "'a site list option"
  frames :: "string \<rightharpoonup> frame"
  groups :: "string \<rightharpoonup> nat \<times> 'a group_obj"
  plates :: "string \<rightharpoonup> nat \<times> plate_obj"
  next_id :: nat
  PYRO_STACK :: "nat list"
  param_store :: "string \<rightharpoonup> 'a tensor"

text \<open>\<^verbatim>\<open>EasyGuide.__init__\<close>, in a process whose effect stack and parameter store are empty.\<close>

definition EasyGuide_init :: "'a state" where
  "EasyGuide_init =
     \<lparr>prototype_trace = None, frames = Map.empty, groups = Map.empty, plates = Map.empty,
      next_id = 0, PYRO_STACK = [], param_store = Map.empty\<rparr>"

text \<open>
  The operations of the execution substrate that the code calls and this file does not
  define: the constructor \<^verbatim>\<open>pyro.plate\<close>, the match test \<^verbatim>\<open>re.match\<close> on a pattern and a name,
  the bijection \<^verbatim>\<open>biject_to(fn.support)\<close> of a site, and the replay
  \<^verbatim>\<open>pyro.sample(name, Delta(z))\<close> of a point mass at a site. They are parameters of the model.
\<close>

record 'a substrate =
  pyro_plate :: "string \<Rightarrow> plate_args \<Rightarrow> error + plate_obj"
  re_match :: "string \<Rightarrow> string \<Rightarrow> error + bool"
  biject_to :: "'a site \<Rightarrow> 'a tensor \<Rightarrow> 'a tensor"
  pyro_sample_Delta :: "'a site \<Rightarrow> 'a tensor \<Rightarrow> 'a tensor"

section \<open>EasyGuide.plate\<close>

text \<open>
  \<^verbatim>\<open>
  def plate(self, name, size=None, subsample_size=None, subsample=None, *args, **kwargs):
      if name not in self.plates:
          self.plates[name] = pyro.plate(name, size, subsample_size, subsample, *args, **kwargs)
      return self.plates[name]
  \<close>
\<close>

definition EasyGuide_plate ::
  "'a substrate \<Rightarrow> string \<Rightarrow> plate_args \<Rightarrow> 'a state \<Rightarrow> (error + nat \<times> plate_obj) \<times> 'a state" where
  "EasyGuide_plate sub name args st =
     (case plates st name of
        Some p \<Rightarrow> (Inr p, st)
      | None \<Rightarrow>
          (case pyro_plate sub name args of
             Inl e \<Rightarrow> (Inl e, st)
           | Inr p \<Rightarrow>
               (Inr (next_id st, p),
                st\<lparr>plates := (plates st)(name \<mapsto> (next_id st, p)), next_id := Suc (next_id st)\<rparr>)))"

section \<open>Site catalog construction and invocation\<close>

text \<open>
  Modelled from the spec: the iteration primitive over a recorded execution's stochastic
  sites. The trace is the list of its nodes in execution order.
\<close>

definition iter_stochastic_nodes :: "'a site list \<Rightarrow> 'a site list" where
  "iter_stochastic_nodes tr = filter is_stochastic tr"

text \<open>
  \<^verbatim>\<open>
  for name, site in self.prototype_trace.iter_stochastic_nodes():
      for frame in site["cond_indep_stack"]:
          if not frame.vectorized:
              raise NotImplementedError("EasyGuide does not support sequential pyro.plate")
          self.frames[frame.name] = frame
  \<close>
  The inner and the outer loop, threading \<^verbatim>\<open>self.frames\<close>.
\<close>

fun scan_stack :: "frame list \<Rightarrow> (string \<rightharpoonup> frame) \<Rightarrow> (error + unit) \<times> (string \<rightharpoonup> frame)" where
  "scan_stack [] fr = (Inr (), fr)"
| "scan_stack (f # fs) fr =
     (if \<not> vectorized f then (Inl NotImplementedError, fr)
      else scan_stack fs (fr(frame_name f \<mapsto> f)))"

fun scan_sites :: "'a site list \<Rightarrow> (string \<rightharpoonup> frame) \<Rightarrow> (error + unit) \<times> (string \<rightharpoonup> frame)" where
  "scan_sites [] fr = (Inr (), fr)"
| "scan_sites (s # ss) fr =
     (case scan_stack (cond_indep_stack s) fr of
        (Inl e, fr') \<Rightarrow> (Inl e, fr')
      | (Inr u, fr') \<Rightarrow> scan_sites ss fr')"

text \<open>
  \<^verbatim>\<open>EasyGuide._setup_prototype\<close>. The argument \<open>tr\<close> is the pruned trace that the substrate
  records when it runs the model on the arguments of the call; it is stored in
  \<^verbatim>\<open>self.prototype_trace\<close> before the frames are scanned.
\<close>

definition EasyGuide_setup_prototype :: "'a site list \<Rightarrow> 'a state \<Rightarrow> (error + unit) \<times> 'a state" where
  "EasyGuide_setup_prototype tr st =
     (case scan_sites (iter_stochastic_nodes tr) (frames st) of
        (r, fr) \<Rightarrow> (r, st\<lparr>prototype_trace := Some tr, frames := fr\<rparr>))"

text \<open>
  \<^verbatim>\<open>
  def __call__(self, *args, **kwargs):
      if self.prototype_trace is None:
          self._setup_prototype(*args, **kwargs)
      result = self.guide(*args, **kwargs)
      self.plates.clear()
      return result
  \<close>
  The user's \<^verbatim>\<open>guide\<close> method is any function on the state.
\<close>

definition EasyGuide_call ::
  "'a site list \<Rightarrow> ('a state \<Rightarrow> (error + 'r) \<times> 'a state) \<Rightarrow> 'a state \<Rightarrow> (error + 'r) \<times> 'a state" where
  "EasyGuide_call tr guide st =
     (case (if prototype_trace st = None then EasyGuide_setup_prototype tr st else (Inr (), st)) of
        (Inl e, st1) \<Rightarrow> (Inl e, st1)
      | (Inr u, st1) \<Rightarrow>
          (case guide st1 of
             (Inl e, st2) \<Rightarrow> (Inl e, st2)
           | (Inr result, st2) \<Rightarrow> (Inr result, st2\<lparr>plates := Map.empty\<rparr>)))"

section \<open>Group construction and EasyGuide.group\<close>

text \<open>
  \<^verbatim>\<open>
  self.frames = frozenset.intersection(*(
      frozenset(f for f in site["cond_indep_stack"] if f.vectorized)
      for site in sites))
  \<close>
  The frozen set is listed without repetition, in the order of the first site's stack.
\<close>

definition common_frames :: "'a site list \<Rightarrow> frame list" where
  "common_frames sites =
     (case sites of
        [] \<Rightarrow> []
      | s # ss \<Rightarrow>
          filter (\<lambda>f. vectorized f \<and> (\<forall>s' \<in> set ss. f \<in> set (cond_indep_stack s')))
            (remdups (cond_indep_stack s)))"

text \<open>
  \<^verbatim>\<open>
  for f in self.frames:
      site_batch_shape[f.dim] = 1
  \<close>
  Assignment into a Python list raises \<^verbatim>\<open>IndexError\<close> out of range.
\<close>

fun collapse_frames :: "frame list \<Rightarrow> nat list \<Rightarrow> error + nat list" where
  "collapse_frames [] bs = Inr bs"
| "collapse_frames (f # fs) bs =
     (case py_index (frame_dim f) (length bs) of
        Inl e \<Rightarrow> Inl e
      | Inr i \<Rightarrow> collapse_frames fs (bs[i := 1]))"

text \<open>
  \<^verbatim>\<open>
  event_shape = [0]
  for site in sites:
      site_event_size = torch.Size(site["fn"].event_shape).numel()
      site_batch_shape = list(site["fn"].batch_shape)
      for f in self.frames:
          site_batch_shape[f.dim] = 1
      event_shape[0] += site_event_size * torch.Size(site_batch_shape).numel()
  \<close>
\<close>

fun flattened_size :: "frame list \<Rightarrow> 'a site list \<Rightarrow> nat \<Rightarrow> error + nat" where
  "flattened_size fs [] acc = Inr acc"
| "flattened_size fs (site # sites) acc =
     (case collapse_frames fs (fn_batch_shape site) of
        Inl e \<Rightarrow> Inl e
      | Inr site_batch_shape \<Rightarrow>
          flattened_size fs sites (acc + numel (fn_event_shape site) * numel site_batch_shape))"

text \<open>\<^verbatim>\<open>Group.__init__\<close>.\<close>

definition Group_init :: "'a site list \<Rightarrow> error + 'a group_obj" where
  "Group_init sites =
     (if sites = [] then Inl AssertionError
      else
        (case flattened_size (common_frames sites) sites 0 of
           Inl e \<Rightarrow> Inl e
         | Inr n \<Rightarrow>
             Inr \<lparr>group_sites = sites, group_frames = common_frames sites,
                  group_event_shape = [n]\<rparr>))"

text \<open>
  \<^verbatim>\<open>
  sites = [site
           for name, site in self.prototype_trace.iter_stochastic_nodes()
           if re.match(match, name)]
  \<close>
  The match test may raise (an invalid pattern), which ends the comprehension.
\<close>

fun select_sites :: "(string \<Rightarrow> error + bool) \<Rightarrow> 'a site list \<Rightarrow> error + 'a site list" where
  "select_sites m [] = Inr []"
| "select_sites m (s # ss) =
     (case m (site_name s) of
        Inl e \<Rightarrow> Inl e
      | Inr b \<Rightarrow>
          (case select_sites m ss of
             Inl e \<Rightarrow> Inl e
           | Inr r \<Rightarrow> Inr (if b then s # r else r)))"

text \<open>
  \<^verbatim>\<open>
  def group(self, match=".*"):
      if match not in self.groups:
          sites = [...]
          if not sites:
              raise ValueError("EasyGuide.group() pattern {} matched no model sites"
                               .format(repr(match)))
          self.groups[match] = Group(self, sites)
      return self.groups[match]
  \<close>
  Reading \<^verbatim>\<open>self.prototype_trace\<close> before the first invocation finds \<^verbatim>\<open>None\<close>, whose
  attribute access raises \<^verbatim>\<open>AttributeError\<close>.
\<close>

definition EasyGuide_group ::
  "'a substrate \<Rightarrow> string \<Rightarrow> 'a state \<Rightarrow> (error + nat \<times> 'a group_obj) \<times> 'a state" where
  "EasyGuide_group sub match st =
     (case groups st match of
        Some g \<Rightarrow> (Inr g, st)
      | None \<Rightarrow>
          (case prototype_trace st of
             None \<Rightarrow> (Inl AttributeError, st)
           | Some tr \<Rightarrow>
               (case select_sites (re_match sub match) (iter_stochastic_nodes tr) of
                  Inl e \<Rightarrow> (Inl e, st)
                | Inr sites \<Rightarrow>
                    if sites = [] then (Inl ValueError, st)
                    else
                      (case Group_init sites of
                         Inl e \<Rightarrow> (Inl e, st)
                       | Inr g \<Rightarrow>
                           (Inr (next_id st, g),
                            st\<lparr>groups := (groups st)(match \<mapsto> (next_id st, g)),
                               next_id := Suc (next_id st)\<rparr>)))))"

section \<open>EasyGuide.map_estimate\<close>

subsection \<open>Tensor operations\<close>

text \<open>\<^verbatim>\<open>t.size(dim)\<close>: the extent of one dimension, \<^verbatim>\<open>IndexError\<close> for a dimension out of range.\<close>

definition tensor_size :: "'a tensor \<Rightarrow> int \<Rightarrow> error + nat" where
  "tensor_size t dim =
     (case py_index dim (length (shape t)) of
        Inl e \<Rightarrow> Inl e
      | Inr d \<Rightarrow> Inr (shape t ! d))"

text \<open>
  With the dimensions before \<open>d\<close> flattened to an outer index \<open>q\<close>, \<open>block t d q i\<close> is the
  sub-tensor of \<open>t\<close> at outer index \<open>q\<close> and index \<open>i\<close> along dimension \<open>d\<close>: a contiguous run
  of row-major elements.
\<close>

definition block :: "'a tensor \<Rightarrow> nat \<Rightarrow> nat \<Rightarrow> nat \<Rightarrow> 'a list" where
  "block t d q i =
     take (numel (drop (Suc d) (shape t)))
       (drop ((q * (shape t ! d) + i) * numel (drop (Suc d) (shape t))) (data t))"

text \<open>
  \<^verbatim>\<open>t.index_select(dim, ind)\<close>: along \<open>dim\<close>, position \<open>j\<close> of the result is position \<open>ind[j]\<close>
  of \<open>t\<close>. An index outside the dimension is an error.
\<close>

definition index_select :: "'a tensor \<Rightarrow> int \<Rightarrow> int list \<Rightarrow> error + 'a tensor" where
  "index_select t dim ind =
     (case py_index dim (length (shape t)) of
        Inl e \<Rightarrow> Inl e
      | Inr d \<Rightarrow>
          if \<exists>i \<in> set ind. i < 0 \<or> int (shape t ! d) \<le> i then Inl IndexError
          else
            Inr \<lparr>shape = (shape t)[d := length ind],
                 data = concat (map (\<lambda>q. concat (map (\<lambda>i. block t d q (nat i)) ind))
                                  [0..<numel (take d (shape t))])\<rparr>)"

text \<open>
  \<^verbatim>\<open>
  # Repeat the init_value to full size.
  dim = plate.dim - fn.event_dim
  assert init_value.size(dim) == plate.subsample_size
  ind = torch.arange(plate.size, device=init_value.device)
  ind = ind % plate.subsample_size
  init_value = init_value.index_select(dim, ind)
  \<close>
  \<^verbatim>\<open>torch.arange\<close> rejects a negative bound, and the remainder of an integer tensor by zero is
  an error.
\<close>

definition repeat_init :: "plate_obj \<Rightarrow> int \<Rightarrow> 'a tensor \<Rightarrow> error + 'a tensor" where
  "repeat_init plate event_dim init_value =
     (case tensor_size init_value (plate_dim plate - event_dim) of
        Inl e \<Rightarrow> Inl e
      | Inr n \<Rightarrow>
          if int n \<noteq> plate_subsample_size plate then Inl AssertionError
          else if plate_size plate < 0 then Inl RuntimeError
          else if plate_subsample_size plate = 0 then Inl ZeroDivisionError
          else
            index_select init_value (plate_dim plate - event_dim)
              (map (\<lambda>i. int i mod plate_subsample_size plate) [0..<nat (plate_size plate)]))"

subsection \<open>The parameter store\<close>



subsection \<open>The operation\<close>

text \<open>
  \<^verbatim>\<open>
  for frame in site["cond_indep_stack"]:
      plate = self.plate(frame.name)
      if plate not in runtime._PYRO_STACK:
          stack.enter_context(plate)
      elif init_value is not None and plate.subsample_size < plate.size:
          ...
          init_value = init_value.index_select(dim, ind)
  \<close>
  Entering a plate puts it on \<^verbatim>\<open>runtime._PYRO_STACK\<close>.
\<close>

fun map_estimate_frames ::
  "'a substrate \<Rightarrow> int \<Rightarrow> frame list \<Rightarrow> 'a tensor option \<Rightarrow> 'a state \<Rightarrow>
     (error + 'a tensor option) \<times> 'a state" where
  "map_estimate_frames sub event_dim [] init_value st = (Inr init_value, st)"
| "map_estimate_frames sub event_dim (frame # fs) init_value st =
     (case EasyGuide_plate sub (frame_name frame) no_args st of
        (Inl e, st1) \<Rightarrow> (Inl e, st1)
      | (Inr plate, st1) \<Rightarrow>
          if fst plate \<notin> set (PYRO_STACK st1)
          then map_estimate_frames sub event_dim fs init_value
                 (st1\<lparr>PYRO_STACK := PYRO_STACK st1 @ [fst plate]\<rparr>)
          else
            (case init_value of
               None \<Rightarrow> map_estimate_frames sub event_dim fs init_value st1
             | Some v \<Rightarrow>
                 if plate_subsample_size (snd plate) < plate_size (snd plate)
                 then
                   (case repeat_init (snd plate) event_dim v of
                      Inl e \<Rightarrow> (Inl e, st1)
                    | Inr v' \<Rightarrow> map_estimate_frames sub event_dim fs (Some v') st1)
                 else map_estimate_frames sub event_dim fs init_value st1))"


section \<open>Group.sample\<close>

text \<open>
  \<^verbatim>\<open>guide_z[..., a:b]\<close> for \<open>a \<le> b\<close>: a slice of the last dimension, clamped to its extent as
  Python slices are. A tensor without dimensions cannot be sliced.
\<close>

definition slice_last :: "'a tensor \<Rightarrow> nat \<Rightarrow> nat \<Rightarrow> error + 'a tensor" where
  "slice_last t a b =
     (if shape t = [] then Inl IndexError
      else
        Inr \<lparr>shape = butlast (shape t) @ [min b (last (shape t)) - min a (last (shape t))],
             data = concat (map (\<lambda>r. take (min b (last (shape t)) - min a (last (shape t)))
                                        (drop (r * last (shape t) + min a (last (shape t))) (data t)))
                              [0..<numel (butlast (shape t))])\<rparr>)"

text \<open>\<^verbatim>\<open>t.reshape(s)\<close>: the same elements under a shape with as many elements.\<close>

definition reshape :: "'a tensor \<Rightarrow> nat list \<Rightarrow> error + 'a tensor" where
  "reshape t s = (if numel s = numel (shape t) then Inr \<lparr>shape = s, data = data t\<rparr> else Inl RuntimeError)"

text \<open>
  \<^verbatim>\<open>
  for frame in site["cond_indep_stack"]:
      plate = self.guide.plate(frame.name)
      if plate not in runtime._PYRO_STACK:
          stack.enter_context(plate)
  \<close>
\<close>

fun replay_frames :: "'a substrate \<Rightarrow> frame list \<Rightarrow> 'a state \<Rightarrow> (error + unit) \<times> 'a state" where
  "replay_frames sub [] st = (Inr (), st)"
| "replay_frames sub (frame # fs) st =
     (case EasyGuide_plate sub (frame_name frame) no_args st of
        (Inl e, st1) \<Rightarrow> (Inl e, st1)
      | (Inr plate, st1) \<Rightarrow>
          if fst plate \<notin> set (PYRO_STACK st1)
          then replay_frames sub fs (st1\<lparr>PYRO_STACK := PYRO_STACK st1 @ [fst plate]\<rparr>)
          else replay_frames sub fs st1)"

text \<open>\<^verbatim>\<open>model_zs[k] = v\<close> on a dictionary kept in insertion order.\<close>

fun dict_set :: "'k \<Rightarrow> 'v \<Rightarrow> ('k \<times> 'v) list \<Rightarrow> ('k \<times> 'v) list" where
  "dict_set k v [] = [(k, v)]"
| "dict_set k v (kv # kvs) = (if fst kv = k then (k, v) # kvs else kv # dict_set k v kvs)"

text \<open>
  \<^verbatim>\<open>
  model_zs = {}
  pos = 0
  for site in self.sites:
      fn = site["fn"]
      size = torch.Size(fn.event_shape).numel()
      unconstrained_z = guide_z[..., pos: pos + size]
      unconstrained_z = unconstrained_z.reshape(batch_shape + fn.event_shape)
      pos += size
      transform = biject_to(fn.support)
      z = transform(unconstrained_z)
      ...
      with ExitStack() as stack:
          for frame in site["cond_indep_stack"]:
              ...
          model_zs[site["name"]] = pyro.sample(site["name"], delta_dist)
  \<close>
  The loop, threading \<open>pos\<close>, \<open>model_zs\<close> and the state; it returns the final \<open>pos\<close> with the
  dictionary. The log density of the point mass does not enter the values returned and is
  left out.
\<close>

fun unpack_sites ::
  "'a substrate \<Rightarrow> 'a tensor \<Rightarrow> nat list \<Rightarrow> 'a site list \<Rightarrow> nat \<Rightarrow> (string \<times> 'a tensor) list \<Rightarrow>
     'a state \<Rightarrow> (error + (string \<times> 'a tensor) list \<times> nat) \<times> 'a state" where
  "unpack_sites sub guide_z batch_shape [] pos model_zs st = (Inr (model_zs, pos), st)"
| "unpack_sites sub guide_z batch_shape (site # sites) pos model_zs st =
     (case slice_last guide_z pos (pos + numel (fn_event_shape site)) of
        Inl e \<Rightarrow> (Inl e, st)
      | Inr sl \<Rightarrow>
          (case reshape sl (batch_shape @ fn_event_shape site) of
             Inl e \<Rightarrow> (Inl e, st)
           | Inr unconstrained_z \<Rightarrow>
               (case replay_frames sub (cond_indep_stack site) st of
                  (Inl e, st1) \<Rightarrow> (Inl e, st1\<lparr>PYRO_STACK := PYRO_STACK st\<rparr>)
                | (Inr u, st1) \<Rightarrow>
                    unpack_sites sub guide_z batch_shape sites
                      (pos + numel (fn_event_shape site))
                      (dict_set (site_name site)
                         (pyro_sample_Delta sub site (biject_to sub site unconstrained_z))
                         model_zs)
                      (st1\<lparr>PYRO_STACK := PYRO_STACK st\<rparr>))))"

text \<open>
  \<^verbatim>\<open>Group.sample\<close>, from the packed sample \<open>guide_z\<close> that the substrate has drawn for
  \<^verbatim>\<open>pyro.sample(guide_name, fn, infer=infer)\<close>; \<^verbatim>\<open>batch_shape = guide_z.shape[:-1]\<close>.
\<close>

definition Group_sample ::
  "'a substrate \<Rightarrow> 'a group_obj \<Rightarrow> 'a tensor \<Rightarrow> 'a state \<Rightarrow>
     (error + 'a tensor \<times> (string \<times> 'a tensor) list) \<times> 'a state" where
  "Group_sample sub g guide_z st =
     (case unpack_sites sub guide_z (butlast (shape guide_z)) (group_sites g) 0 [] st of
        (Inl e, st') \<Rightarrow> (Inl e, st')
      | (Inr (model_zs, pos), st') \<Rightarrow> (Inr (guide_z, model_zs), st'))"

section \<open>The match test of \<^verbatim>\<open>re.match\<close>\<close>

text \<open>
  \<^verbatim>\<open>EasyGuide.group\<close> selects a site by \<^verbatim>\<open>re.match(match, name)\<close>, a function of Python's
  standard library, not of this repository; it is modelled from the library's
  documentation. Compiling a pattern either raises or gives a matcher: for a string and
  two positions \<open>i \<le> j\<close> in it, the matcher says whether the pattern matches the characters
  from \<open>i\<close> up to \<open>j\<close> (what stands around them may matter to the pattern). How patterns are
  compiled is a parameter. \<^verbatim>\<open>re.match\<close> returns a match, which counts as true, when zero or
  more characters at the beginning of the string match the pattern; \<^verbatim>\<open>re.fullmatch\<close> when
  the whole string matches; \<^verbatim>\<open>re.search\<close> when the characters from some position on do.
\<close>

type_synonym matcher = "string \<Rightarrow> nat \<Rightarrow> nat \<Rightarrow> bool"

definition py_re_match :: "(string \<Rightarrow> error + matcher) \<Rightarrow> string \<Rightarrow> string \<Rightarrow> error + bool" where
  "py_re_match compile pattern s =
     (case compile pattern of
        Inl e \<Rightarrow> Inl e
      | Inr M \<Rightarrow> Inr (list_ex (\<lambda>j. M s 0 j) [0..<Suc (length s)]))"

definition py_re_fullmatch :: "(string \<Rightarrow> error + matcher) \<Rightarrow> string \<Rightarrow> string \<Rightarrow> error + bool" where
  "py_re_fullmatch compile pattern s =
     (case compile pattern of
        Inl e \<Rightarrow> Inl e
      | Inr M \<Rightarrow> Inr (M s 0 (length s)))"

definition py_re_search :: "(string \<Rightarrow> error + matcher) \<Rightarrow> string \<Rightarrow> string \<Rightarrow> error + bool" where
  "py_re_search compile pattern s =
     (case compile pattern of
        Inl e \<Rightarrow> Inl e
      | Inr M \<Rightarrow>
          Inr (list_ex (\<lambda>i. list_ex (\<lambda>j. M s i j) [i..<Suc (length s)]) [0..<Suc (length s)]))"

subsection \<open>An engine for a fragment of the pattern syntax\<close>

text \<open>
  For the examples, an engine that reads the patterns built from literal characters,
  \<^verbatim>\<open>.\<close> (any character but a newline), a postfix \<^verbatim>\<open>*\<close> on a single character or \<^verbatim>\<open>.\<close>, and
  \<^verbatim>\<open>|\<close> between alternatives, with the meaning they have in Python. It is not Python's
  engine: it refuses every other pattern, many of which Python reads. \<open>Nul\<close> matches
  nothing; no pattern denotes it, the derivative of an expression may.
\<close>

datatype regex = Nul | Eps | Chr char | Dot | Alt regex regex | Seq regex regex | Star regex

inductive_set star :: "string set \<Rightarrow> string set" for A :: "string set" where
  star_nil: "[] \<in> star A"
| star_step: "u \<in> A \<Longrightarrow> v \<in> star A \<Longrightarrow> u @ v \<in> star A"

fun lang :: "regex \<Rightarrow> string set" where
  "lang Nul = {}"
| "lang Eps = {[]}"
| "lang (Chr c) = {[c]}"
| "lang Dot = {[c] | c. c \<noteq> CHR 0x0A}"
| "lang (Alt r s) = lang r \<union> lang s"
| "lang (Seq r s) = {u @ v | u v. u \<in> lang r \<and> v \<in> lang s}"
| "lang (Star r) = star (lang r)"

fun nullable :: "regex \<Rightarrow> bool" where
  "nullable Nul = False"
| "nullable Eps = True"
| "nullable (Chr c) = False"
| "nullable Dot = False"
| "nullable (Alt r s) = (nullable r \<or> nullable s)"
| "nullable (Seq r s) = (nullable r \<and> nullable s)"
| "nullable (Star r) = True"

fun deriv :: "char \<Rightarrow> regex \<Rightarrow> regex" where
  "deriv c Nul = Nul"
| "deriv c Eps = Nul"
| "deriv c (Chr d) = (if c = d then Eps else Nul)"
| "deriv c Dot = (if c = CHR 0x0A then Nul else Eps)"
| "deriv c (Alt r s) = Alt (deriv c r) (deriv c s)"
| "deriv c (Seq r s) =
     (if nullable r then Alt (Seq (deriv c r) s) (deriv c s) else Seq (deriv c r) s)"
| "deriv c (Star r) = Seq (deriv c r) (Star r)"

text \<open>Does the whole string match the expression?\<close>

fun match_full :: "regex \<Rightarrow> string \<Rightarrow> bool" where
  "match_full r [] = nullable r"
| "match_full r (c # cs) = match_full (deriv c r) cs"

text \<open>
  Reading a pattern of the fragment. The characters with a special meaning in Python's
  pattern syntax, other than \<^verbatim>\<open>.\<close>, \<^verbatim>\<open>*\<close> and \<^verbatim>\<open>|\<close>, are outside the fragment.
\<close>

definition special :: "char list" where
  "special = CHR 0x5C # ''^$?+()[]{}''"

definition atom :: "char \<Rightarrow> regex" where
  "atom c = (if c = CHR ''.'' then Dot else Chr c)"

fun parse_seq :: "string \<Rightarrow> regex option" where
  "parse_seq [] = Some Eps"
| "parse_seq (c # cs) =
     (if c \<in> set special \<or> c = CHR ''*'' \<or> c = CHR ''|'' then None
      else
        (case cs of
           [] \<Rightarrow> Some (Seq (atom c) Eps)
         | d # rest \<Rightarrow>
             if d = CHR ''*'' then map_option (Seq (Star (atom c))) (parse_seq rest)
             else map_option (Seq (atom c)) (parse_seq cs)))"

fun split_bar :: "string \<Rightarrow> string list" where
  "split_bar [] = [[]]"
| "split_bar (c # cs) =
     (if c = CHR ''|'' then [] # split_bar cs
      else (case split_bar cs of [] \<Rightarrow> [[c]] | a # as \<Rightarrow> (c # a) # as))"

fun alternatives :: "regex option list \<Rightarrow> regex option" where
  "alternatives [] = None"
| "alternatives [r] = r"
| "alternatives (r # rs) =
     (case r of
        None \<Rightarrow> None
      | Some a \<Rightarrow> (case alternatives rs of None \<Rightarrow> None | Some b \<Rightarrow> Some (Alt a b)))"

definition read_pattern :: "string \<Rightarrow> regex option" where
  "read_pattern p = alternatives (map parse_seq (split_bar p))"

text \<open>
  The engine: the matcher of a pattern of the fragment holds of \<open>i\<close> and \<open>j\<close> when the
  characters from \<open>i\<close> up to \<open>j\<close> match the expression read from the pattern.
\<close>

definition fragment_engine :: "string \<Rightarrow> error + matcher" where
  "fragment_engine p =
     (case read_pattern p of
        None \<Rightarrow> Inl ReError
      | Some r \<Rightarrow> Inr (\<lambda>s i j. i \<le> j \<and> j \<le> length s \<and> match_full r (take (j - i) (drop i s))))"


section \<open>Properties of states and groups\<close>

text \<open>
  Every pattern in the group cache matched a stochastic site of the catalog when it was
  cached. A new instance has an empty cache, and the operations keep the property.
\<close>

definition cache_ok :: "'a substrate \<Rightarrow> 'a state \<Rightarrow> bool" where
  "cache_ok sub st =
     (\<forall>p g. groups st p = Some g \<longrightarrow>
        (\<exists>tr. prototype_trace st = Some tr \<and>
           (\<exists>s \<in> set (iter_stochastic_nodes tr). re_match sub p (site_name s) = Inr True)))"

text \<open>
  The identities in the group cache are earlier than the counter, and two keys never hold
  the same identity.
\<close>

definition ids_ok :: "'a state \<Rightarrow> bool" where
  "ids_ok st =
     ((\<forall>p g. groups st p = Some g \<longrightarrow> fst g < next_id st) \<and>
      (\<forall>p q g h. groups st p = Some g \<and> groups st q = Some h \<and> p \<noteq> q \<longrightarrow> fst g \<noteq> fst h))"

text \<open>
  Every member site of the group has, besides the frames the group shares, no batch
  dimension: with the shared frames set to size 1, as \<^verbatim>\<open>Group.__init__\<close> does, its batch shape
  has one element.
\<close>

definition shared_batch_only :: "'a group_obj \<Rightarrow> bool" where
  "shared_batch_only g =
     list_all (\<lambda>s. case collapse_frames (group_frames g) (fn_batch_shape s) of
                      Inl e \<Rightarrow> False
                    | Inr bs \<Rightarrow> numel bs = 1)
       (group_sites g)"

section \<open>Example inputs\<close>

text \<open>
  A substrate for the examples. Its plates take their sizes from the arguments (\<open>-1\<close>
  where none is given) and sit at dimension \<open>-1\<close>; patterns are matched by
  \<^verbatim>\<open>re.match\<close> with the engine for the fragment; every support is unconstrained, so the bijection is the identity; and a point
  mass replays as its point.
\<close>

definition example_plate :: "string \<Rightarrow> plate_args \<Rightarrow> error + plate_obj" where
  "example_plate name args =
     Inr \<lparr>plate_name = name,
          plate_size = (case arg_size args of None \<Rightarrow> - 1 | Some n \<Rightarrow> n),
          plate_subsample_size =
            (case arg_subsample_size args of
               None \<Rightarrow> (case arg_size args of None \<Rightarrow> - 1 | Some n \<Rightarrow> n)
             | Some m \<Rightarrow> m),
          plate_dim = - 1\<rparr>"

definition example_substrate :: "int substrate" where
  "example_substrate =
     \<lparr>pyro_plate = example_plate, re_match = py_re_match fragment_engine,
      biject_to = (\<lambda>s t. t), pyro_sample_Delta = (\<lambda>s t. t)\<rparr>"

text \<open>A stochastic site with a scalar distribution outside every plate.\<close>

definition scalar_site :: "string \<Rightarrow> int \<Rightarrow> int site" where
  "scalar_site name v =
     \<lparr>site_name = name, is_stochastic = True, fn_batch_shape = [], fn_event_shape = [],
      cond_indep_stack = [], site_value = \<lparr>shape = [], data = [v]\<rparr>\<rparr>"

text \<open>
  The trace of a model with two scalar sites \<^verbatim>\<open>a\<close> and \<^verbatim>\<open>b\<close>, the instance after its catalog
  has been built from that trace, and the group of both sites.
\<close>

definition catalog_ab :: "int site list" where
  "catalog_ab = [scalar_site ''a'' 1, scalar_site ''b'' 2]"

definition state_ab :: "int state" where
  "state_ab = snd (EasyGuide_setup_prototype catalog_ab EasyGuide_init)"

definition group_ab :: "int group_obj" where
  "group_ab = \<lparr>group_sites = catalog_ab, group_frames = [], group_event_shape = [2]\<rparr>"

text \<open>
  The trace of a model with two scalar sites \<^verbatim>\<open>ab\<close> and \<^verbatim>\<open>b\<close>, and the instance after
  its catalog has been built from that trace.
\<close>

definition catalog_ab_b :: "int site list" where
  "catalog_ab_b = [scalar_site ''ab'' 1, scalar_site ''b'' 2]"

definition state_ab_b :: "int state" where
  "state_ab_b = snd (EasyGuide_setup_prototype catalog_ab_b EasyGuide_init)"

text \<open>
  Arguments for a plate of size 7 subsampled to 3, and for a plate of size 5; the plate
  \<^verbatim>\<open>p\<close> that the example substrate builds from the former; a guide body that asks for it.
\<close>

definition args_7_3 :: plate_args where
  "args_7_3 = \<lparr>arg_size = Some 7, arg_subsample_size = Some 3, arg_subsample = None\<rparr>"

definition args_5 :: plate_args where
  "args_5 = \<lparr>arg_size = Some 5, arg_subsample_size = None, arg_subsample = None\<rparr>"

definition plate_7_3 :: plate_obj where
  "plate_7_3 = \<lparr>plate_name = ''p'', plate_size = 7, plate_subsample_size = 3, plate_dim = - 1\<rparr>"

definition guide_p :: "int state \<Rightarrow> (error + nat \<times> plate_obj) \<times> int state" where
  "guide_p st = EasyGuide_plate example_substrate ''p'' args_7_3 st"



text \<open>
  An initial value of extent 3, the frame of plate \<^verbatim>\<open>p\<close>, and a state in which plate \<^verbatim>\<open>p\<close>
  is registered and active.
\<close>

definition init_012 :: "int tensor" where
  "init_012 = \<lparr>shape = [3], data = [0, 1, 2]\<rparr>"

definition frame_p :: frame where
  "frame_p = \<lparr>frame_name = ''p'', frame_dim = - 1, frame_size = 7, vectorized = True\<rparr>"

definition state_p_active :: "int state" where
  "state_p_active =
     EasyGuide_init\<lparr>plates := [''p'' \<mapsto> (0, plate_7_3)], next_id := 1, PYRO_STACK := [0]\<rparr>"


text \<open>
  A site recorded with batch shape \<open>[4]\<close> inside plate \<^verbatim>\<open>q\<close>, its group, and a packed
  sample of batch shape \<open>[2]\<close> for that group.
\<close>

definition frame_q :: frame where
  "frame_q = \<lparr>frame_name = ''q'', frame_dim = - 1, frame_size = 4, vectorized = True\<rparr>"

definition site_xq :: "int site" where
  "site_xq =
     \<lparr>site_name = ''x'', is_stochastic = True, fn_batch_shape = [4], fn_event_shape = [],
      cond_indep_stack = [frame_q], site_value = \<lparr>shape = [4], data = [0, 0, 0, 0]\<rparr>\<rparr>"

definition group_xq :: "int group_obj" where
  "group_xq = \<lparr>group_sites = [site_xq], group_frames = [frame_q], group_event_shape = [1]\<rparr>"

definition packed_2_1 :: "int tensor" where
  "packed_2_1 = \<lparr>shape = [2, 1], data = [10, 20]\<rparr>"

text \<open>
  Two sites in two different plates, \<^verbatim>\<open>a\<close> in \<^verbatim>\<open>p\<close> of size 7 and \<^verbatim>\<open>b\<close> in \<^verbatim>\<open>q\<close> of size 4,
  and a packed sample of 11 elements.
\<close>

definition site_ap :: "int site" where
  "site_ap =
     \<lparr>site_name = ''a'', is_stochastic = True, fn_batch_shape = [7], fn_event_shape = [],
      cond_indep_stack = [frame_p], site_value = \<lparr>shape = [7], data = [0, 0, 0, 0, 0, 0, 0]\<rparr>\<rparr>"

definition site_bq :: "int site" where
  "site_bq =
     \<lparr>site_name = ''b'', is_stochastic = True, fn_batch_shape = [4], fn_event_shape = [],
      cond_indep_stack = [frame_q], site_value = \<lparr>shape = [4], data = [0, 0, 0, 0]\<rparr>\<rparr>"

definition packed_11 :: "int tensor" where
  "packed_11 = \<lparr>shape = [11], data = [0, 1, 2, 3, 4, 5, 6, 7, 8, 9, 10]\<rparr>"

section \<open>Facts about the example inputs\<close>

lemma state_ab_eq:
  "state_ab = EasyGuide_init\<lparr>prototype_trace := Some catalog_ab\<rparr>"
  by (simp add: state_ab_def EasyGuide_setup_prototype_def iter_stochastic_nodes_def
      catalog_ab_def scalar_site_def EasyGuide_init_def)

lemma stochastic_ab: "iter_stochastic_nodes catalog_ab = catalog_ab"
  by (simp add: iter_stochastic_nodes_def catalog_ab_def scalar_site_def)

lemma catalog_ab_nonempty: "catalog_ab \<noteq> []"
  by (simp add: catalog_ab_def)

lemma py_re_match_examples:
  "py_re_match fragment_engine ''c'' ''a'' = Inr False"
  "py_re_match fragment_engine ''c'' ''b'' = Inr False"
  "py_re_match fragment_engine ''a|b'' ''a'' = Inr True"
  "py_re_match fragment_engine ''a|b'' ''b'' = Inr True"
  "py_re_match fragment_engine ''b|a'' ''a'' = Inr True"
  "py_re_match fragment_engine ''b|a'' ''b'' = Inr True"
  by (simp_all add: py_re_match_def fragment_engine_def read_pattern_def special_def atom_def)

lemma select_ab:
  "select_sites (py_re_match fragment_engine ''a|b'') catalog_ab = Inr catalog_ab"
  "select_sites (py_re_match fragment_engine ''b|a'') catalog_ab = Inr catalog_ab"
  by (simp_all add: catalog_ab_def scalar_site_def py_re_match_examples)

lemma group_ab_init: "Group_init catalog_ab = Inr group_ab"
  by (simp add: Group_init_def catalog_ab_def scalar_site_def common_frames_def group_ab_def numel_def)

lemma setup_ab: "EasyGuide_setup_prototype catalog_ab EasyGuide_init = (Inr (), state_ab)"
  by (simp add: state_ab_eq EasyGuide_setup_prototype_def stochastic_ab)
     (simp add: catalog_ab_def scalar_site_def EasyGuide_init_def)

lemma guide_p_ab:
  "guide_p state_ab =
     (Inr (0, plate_7_3), state_ab\<lparr>plates := [''p'' \<mapsto> (0, plate_7_3)], next_id := 1\<rparr>)"
  by (simp add: guide_p_def EasyGuide_plate_def state_ab_eq EasyGuide_init_def
      example_substrate_def example_plate_def args_7_3_def plate_7_3_def)

lemma call_ab:
  "EasyGuide_call catalog_ab guide_p EasyGuide_init =
     (Inr (0, plate_7_3), state_ab\<lparr>next_id := 1\<rparr>)"
  by (simp add: EasyGuide_call_def setup_ab guide_p_ab)
     (simp add: EasyGuide_init_def state_ab_eq)

lemma upt_2: "[0..<2] = [0, 1::nat]"
  by (simp add: upt_rec)

lemma upt_7: "[0..<7] = [0, 1, 2, 3, 4, 5, 6::nat]"
  by (simp add: upt_rec)

section \<open>The plate registry\<close>

text \<open>
  Claim C8. Once \<^verbatim>\<open>plate(name, ...)\<close> has returned an object, a second call with the same name
  returns that same object and leaves the state as it is, whatever the size, subsample size
  and subsample arguments of the second call are, and whatever the constructor would have
  built from them: the constructor is not called on a cache hit.
\<close>

theorem plate_memoized:
  "fst (EasyGuide_plate sub name args st) = Inr p \<Longrightarrow>
   EasyGuide_plate sub' name args' (snd (EasyGuide_plate sub name args st)) =
     (Inr p, snd (EasyGuide_plate sub name args st))"
  by (auto simp: EasyGuide_plate_def split: option.splits sum.splits)

theorem plate_memoized_witness:
  "fst (EasyGuide_plate example_substrate ''p'' args_7_3 EasyGuide_init) = Inr (0, plate_7_3) \<and>
   EasyGuide_plate example_substrate ''p'' args_5
       (snd (EasyGuide_plate example_substrate ''p'' args_7_3 EasyGuide_init)) =
     (Inr (0, plate_7_3), snd (EasyGuide_plate example_substrate ''p'' args_7_3 EasyGuide_init))"
proof -
  have h: "fst (EasyGuide_plate example_substrate ''p'' args_7_3 EasyGuide_init) = Inr (0, plate_7_3)"
    by (simp add: EasyGuide_plate_def EasyGuide_init_def example_substrate_def example_plate_def
        args_7_3_def plate_7_3_def)
  show ?thesis using h plate_memoized[OF h, of example_substrate args_5] by simp
qed

text \<open>
  Claim C3 says that a later invocation gets the plate object an earlier invocation created.
  Two invocations of a guide whose body asks for plate \<^verbatim>\<open>p\<close> get objects with different
  identities.
\<close>

theorem plate_identity_counterexample:
  "fst (EasyGuide_call catalog_ab guide_p EasyGuide_init) = Inr (0, plate_7_3) \<and>
   fst (EasyGuide_call catalog_ab guide_p (snd (EasyGuide_call catalog_ab guide_p EasyGuide_init))) =
     Inr (1, plate_7_3) \<and>
   fst (EasyGuide_call catalog_ab guide_p (snd (EasyGuide_call catalog_ab guide_p EasyGuide_init))) \<noteq>
     fst (EasyGuide_call catalog_ab guide_p EasyGuide_init)"
proof -
  have a: "EasyGuide_call catalog_ab guide_p EasyGuide_init =
      (Inr (0, plate_7_3), state_ab\<lparr>next_id := 1\<rparr>)"
    by (rule call_ab)
  have b: "fst (EasyGuide_call catalog_ab guide_p (state_ab\<lparr>next_id := 1\<rparr>)) = Inr (1, plate_7_3)"
    by (simp add: EasyGuide_call_def state_ab_eq EasyGuide_init_def guide_p_def EasyGuide_plate_def
         example_substrate_def example_plate_def args_7_3_def plate_7_3_def)
  show ?thesis using a b by simp
qed

text \<open>
  Claim C3, amended. An invocation that returns leaves the plate registry empty
  (\<^verbatim>\<open>self.plates.clear()\<close>), so the first request for any name in the next invocation
  constructs a new object, with a new identity, and registers it.
\<close>

theorem plates_cleared_each_call:
  assumes "EasyGuide_call tr guide st = (Inr r, st')"
  shows "plates st' = Map.empty \<and>
         (pyro_plate sub name args = Inr p \<longrightarrow>
            EasyGuide_plate sub name args st' =
              (Inr (next_id st', p),
               st'\<lparr>plates := [name \<mapsto> (next_id st', p)], next_id := Suc (next_id st')\<rparr>))"
proof -
  have "plates st' = Map.empty"
    using assms by (auto simp: EasyGuide_call_def split: prod.splits sum.splits if_splits)
  then show ?thesis by (simp add: EasyGuide_plate_def)
qed

theorem plates_cleared_each_call_witness:
  "EasyGuide_call catalog_ab guide_p EasyGuide_init = (Inr (0, plate_7_3), state_ab\<lparr>next_id := 1\<rparr>) \<and>
   plates (state_ab\<lparr>next_id := 1\<rparr>) = Map.empty \<and>
   pyro_plate example_substrate ''p'' args_7_3 = Inr plate_7_3 \<and>
   EasyGuide_plate example_substrate ''p'' args_7_3 (state_ab\<lparr>next_id := 1\<rparr>) =
     (Inr (1, plate_7_3), state_ab\<lparr>plates := [''p'' \<mapsto> (1, plate_7_3)], next_id := 2\<rparr>)"
proof -
  have h: "EasyGuide_call catalog_ab guide_p EasyGuide_init =
      (Inr (0, plate_7_3), state_ab\<lparr>next_id := 1\<rparr>)"
    by (rule call_ab)
  have p: "pyro_plate example_substrate ''p'' args_7_3 = Inr plate_7_3"
    by (simp add: example_substrate_def example_plate_def args_7_3_def plate_7_3_def)
  show ?thesis
    using h p plates_cleared_each_call[OF h, of example_substrate "''p''" args_7_3 plate_7_3]
    by (simp add: state_ab_eq EasyGuide_init_def)
qed

section \<open>Catalog construction\<close>




text \<open>
  The trace is stored before the frames are scanned, so it stays stored when the scan
  raises, and the next invocation finds a catalog.
\<close>

lemma setup_prototype_stores_trace:
  "prototype_trace (snd (EasyGuide_setup_prototype tr st)) = Some tr"
  by (simp add: EasyGuide_setup_prototype_def split: prod.splits)




section \<open>Group selection and the group cache\<close>

lemma select_sites_none:
  "\<forall>s \<in> set ss. m (site_name s) = Inr False \<Longrightarrow> select_sites m ss = Inr []"
  by (induction ss) auto

lemma select_sites_nonempty:
  "select_sites m ss = Inr r \<Longrightarrow> r \<noteq> [] \<Longrightarrow> \<exists>s \<in> set ss. m (site_name s) = Inr True"
  by (induction ss arbitrary: r) (auto split: sum.splits if_splits)

lemma cache_ok_init: "cache_ok sub EasyGuide_init"
  by (simp add: cache_ok_def EasyGuide_init_def)

lemma cache_ok_setup:
  "cache_ok sub st \<Longrightarrow> prototype_trace st = None \<Longrightarrow>
   cache_ok sub (snd (EasyGuide_setup_prototype tr st))"
  by (auto simp: cache_ok_def EasyGuide_setup_prototype_def split: prod.splits)

lemma cache_ok_group:
  assumes "cache_ok sub st"
  shows "cache_ok sub (snd (EasyGuide_group sub p st))"
  using assms select_sites_nonempty[of "re_match sub p"]
  unfolding cache_ok_def EasyGuide_group_def
  by (auto split: option.splits sum.splits)

text \<open>
  Claim C6. With a site catalog in place, a pattern that matches no stochastic site of the
  catalog makes \<^verbatim>\<open>group(match)\<close> raise \<^verbatim>\<open>ValueError\<close> and leave the state, and so the group
  cache, exactly as it was. The premise \<open>cache_ok\<close> holds of a new instance and is kept by
  catalog construction and by \<^verbatim>\<open>group\<close> (\<open>cache_ok_init\<close>, \<open>cache_ok_setup\<close>,
  \<open>cache_ok_group\<close>), the operations that write the catalog and the cache: a cached pattern
  matched a site when it was cached.
\<close>

theorem group_no_match:
  assumes "cache_ok sub st" and "prototype_trace st = Some tr"
    and "\<forall>s \<in> set (iter_stochastic_nodes tr). re_match sub match (site_name s) = Inr False"
  shows "EasyGuide_group sub match st = (Inl ValueError, st)"
proof -
  have "groups st match = None"
  proof (rule ccontr)
    assume "groups st match \<noteq> None"
    then obtain g where "groups st match = Some g" by auto
    with assms(1,2) obtain s where "s \<in> set (iter_stochastic_nodes tr)"
      and "re_match sub match (site_name s) = Inr True"
      unfolding cache_ok_def by fastforce
    with assms(3) show False by auto
  qed
  moreover have "select_sites (re_match sub match) (iter_stochastic_nodes tr) = Inr []"
    using assms(3) by (rule select_sites_none)
  ultimately show ?thesis using assms(2) by (simp add: EasyGuide_group_def)
qed

theorem group_no_match_witness:
  "cache_ok example_substrate state_ab \<and> prototype_trace state_ab = Some catalog_ab \<and>
   map (\<lambda>s. re_match example_substrate ''c'' (site_name s)) (iter_stochastic_nodes catalog_ab) =
     [Inr False, Inr False] \<and>
   EasyGuide_group example_substrate ''c'' state_ab = (Inl ValueError, state_ab)"
proof -
  have h1: "cache_ok example_substrate state_ab"
    by (simp add: cache_ok_def state_ab_eq EasyGuide_init_def)
  have h2: "prototype_trace state_ab = Some catalog_ab"
    by (simp add: state_ab_eq)
  have h3: "\<forall>s \<in> set (iter_stochastic_nodes catalog_ab).
      re_match example_substrate ''c'' (site_name s) = Inr False"
    by (simp add: iter_stochastic_nodes_def catalog_ab_def scalar_site_def example_substrate_def
        py_re_match_examples)
  have h4: "map (\<lambda>s. re_match example_substrate ''c'' (site_name s))
      (iter_stochastic_nodes catalog_ab) = [Inr False, Inr False]"
    by (simp add: iter_stochastic_nodes_def catalog_ab_def scalar_site_def example_substrate_def
        py_re_match_examples)
  show ?thesis using h1 h2 h4 group_no_match[OF h1 h2 h3] by simp
qed

lemma ids_ok_init: "ids_ok EasyGuide_init"
  by (simp add: ids_ok_def EasyGuide_init_def)

lemma ids_ok_group:
  assumes "ids_ok st"
  shows "ids_ok (snd (EasyGuide_group sub p st))"
  using assms unfolding ids_ok_def EasyGuide_group_def
  by (auto split: option.splits sum.splits simp: less_Suc_eq) 

text \<open>
  Claim C7. When \<^verbatim>\<open>group(p)\<close> returns a group, calling it again returns the identical object
  and changes nothing. The cache is keyed by the pattern string: a different string \<open>q\<close>
  gets a group object with another identity, even when it selects the same sites, and
  \<open>p\<close> keeps its own.
\<close>

theorem group_cached:
  assumes "EasyGuide_group sub p st = (Inr g, st1)"
  shows "EasyGuide_group sub' p st1 = (Inr g, st1) \<and>
         (ids_ok st \<and> q \<noteq> p \<and> EasyGuide_group sub q st1 = (Inr h, st2) \<longrightarrow>
            fst h \<noteq> fst g \<and> EasyGuide_group sub' p st2 = (Inr g, st2))"
proof -
  have c: "groups st1 p = Some g"
    using assms by (auto simp: EasyGuide_group_def split: option.splits sum.splits if_splits)
  then have a: "EasyGuide_group sub' p st1 = (Inr g, st1)"
    by (simp add: EasyGuide_group_def)
  have b: "fst h \<noteq> fst g \<and> EasyGuide_group sub' p st2 = (Inr g, st2)"
    if ok: "ids_ok st" and qp: "q \<noteq> p" and gq: "EasyGuide_group sub q st1 = (Inr h, st2)"
  proof -
    have ok1: "ids_ok st1" using ids_ok_group[OF ok, of sub p] assms by simp
    have ok2: "ids_ok st2" using ids_ok_group[OF ok1, of sub q] gq by simp
    have c2: "groups st2 p = Some g" and d2: "groups st2 q = Some h"
      using gq c qp by (auto simp: EasyGuide_group_def split: option.splits sum.splits if_splits)
    have "fst h \<noteq> fst g" using ok2 c2 d2 qp unfolding ids_ok_def by blast
    moreover have "EasyGuide_group sub' p st2 = (Inr g, st2)"
      using c2 by (simp add: EasyGuide_group_def)
    ultimately show ?thesis by simp
  qed
  show ?thesis using a b by blast
qed

theorem group_cached_witness:
  "EasyGuide_group example_substrate ''a|b'' state_ab =
     (Inr (0, group_ab), state_ab\<lparr>groups := [''a|b'' \<mapsto> (0, group_ab)], next_id := 1\<rparr>) \<and>
   ids_ok state_ab \<and> ''b|a'' \<noteq> ''a|b'' \<and>
   EasyGuide_group example_substrate ''b|a''
       (state_ab\<lparr>groups := [''a|b'' \<mapsto> (0, group_ab)], next_id := 1\<rparr>) =
     (Inr (1, group_ab),
      state_ab\<lparr>groups := [''a|b'' \<mapsto> (0, group_ab), ''b|a'' \<mapsto> (1, group_ab)], next_id := 2\<rparr>) \<and>
   EasyGuide_group example_substrate ''a|b''
       (state_ab\<lparr>groups := [''a|b'' \<mapsto> (0, group_ab)], next_id := 1\<rparr>) =
     (Inr (0, group_ab), state_ab\<lparr>groups := [''a|b'' \<mapsto> (0, group_ab)], next_id := 1\<rparr>) \<and>
   fst (1::nat, group_ab) \<noteq> fst (0::nat, group_ab)"
proof -
  have h1: "EasyGuide_group example_substrate ''a|b'' state_ab =
     (Inr (0, group_ab), state_ab\<lparr>groups := [''a|b'' \<mapsto> (0, group_ab)], next_id := 1\<rparr>)"
    by (simp add: EasyGuide_group_def state_ab_eq EasyGuide_init_def example_substrate_def
        stochastic_ab select_ab group_ab_init catalog_ab_nonempty)
  have h2: "ids_ok state_ab"
    by (simp add: ids_ok_def state_ab_eq EasyGuide_init_def)
  have h3: "''b|a'' \<noteq> ''a|b''" by simp
  have h4: "EasyGuide_group example_substrate ''b|a''
       (state_ab\<lparr>groups := [''a|b'' \<mapsto> (0, group_ab)], next_id := 1\<rparr>) =
     (Inr (1, group_ab),
      state_ab\<lparr>groups := [''a|b'' \<mapsto> (0, group_ab), ''b|a'' \<mapsto> (1, group_ab)], next_id := 2\<rparr>)"
    by (simp add: EasyGuide_group_def state_ab_eq EasyGuide_init_def example_substrate_def
        stochastic_ab select_ab group_ab_init catalog_ab_nonempty)
  show ?thesis
    using h1 h2 h3 h4
      group_cached[OF h1, of example_substrate "''b|a''" "(1, group_ab)"
        "state_ab\<lparr>groups := [''a|b'' \<mapsto> (0, group_ab), ''b|a'' \<mapsto> (1, group_ab)], next_id := 2\<rparr>"]
    by simp
qed

subsection \<open>Matching at the beginning of the name\<close>

lemma list_ex_upto: "list_ex P [0..<Suc n] \<longleftrightarrow> (\<exists>j \<le> n. P j)"
  by (auto simp: list_ex_iff less_Suc_eq_le simp del: upt_Suc)

lemma py_re_match_iff:
  "compile p = Inr M \<Longrightarrow> py_re_match compile p s = Inr (\<exists>j \<le> length s. M s 0 j)"
  by (simp add: py_re_match_def list_ex_upto del: upt_Suc)

lemma select_sites_total:
  "\<forall>n. m n = Inr (P n) \<Longrightarrow> select_sites m ss = Inr (filter (\<lambda>s. P (site_name s)) ss)"
  by (induction ss) auto

text \<open>
  Claim C10. Let the match test of the substrate on the pattern be \<^verbatim>\<open>re.match\<close>, for any way
  of compiling patterns, and let the pattern compile to the matcher \<open>M\<close>. Then
  \<^verbatim>\<open>group(match)\<close> selects exactly the stochastic sites of the catalog, in catalog order,
  whose name \<open>M\<close> matches from position 0 up to some position: the match is anchored at the
  beginning of the name and need not reach its end. A site whose whole name matches is
  among them.
\<close>

theorem group_selects_by_prefix:
  assumes "re_match sub p = py_re_match compile p" and "compile p = Inr M"
    and "groups st p = None" and "prototype_trace st = Some tr"
  shows "select_sites (re_match sub p) (iter_stochastic_nodes tr) =
           Inr (filter (\<lambda>s. \<exists>j \<le> length (site_name s). M (site_name s) 0 j)
                  (iter_stochastic_nodes tr)) \<and>
         (\<forall>g st'. EasyGuide_group sub p st = (Inr g, st') \<longrightarrow>
            group_sites (snd g) =
              filter (\<lambda>s. \<exists>j \<le> length (site_name s). M (site_name s) 0 j)
                (iter_stochastic_nodes tr)) \<and>
         (\<forall>s \<in> set (iter_stochastic_nodes tr).
            py_re_fullmatch compile p (site_name s) = Inr True \<longrightarrow>
            s \<in> set (filter (\<lambda>s. \<exists>j \<le> length (site_name s). M (site_name s) 0 j)
                       (iter_stochastic_nodes tr)))"
proof -
  let ?sel = "filter (\<lambda>s. \<exists>j \<le> length (site_name s). M (site_name s) 0 j)
                (iter_stochastic_nodes tr)"
  have "\<forall>n. py_re_match compile p n = Inr (\<exists>j \<le> length n. M n 0 j)"
    using assms(2) by (simp add: py_re_match_iff)
  then have sel: "select_sites (re_match sub p) (iter_stochastic_nodes tr) = Inr ?sel"
    unfolding assms(1) by (rule select_sites_total)
  have grp: "group_sites (snd g) = ?sel" if "EasyGuide_group sub p st = (Inr g, st')" for g st'
    using that assms(3,4) sel
    by (auto simp: EasyGuide_group_def Group_init_def split: if_splits sum.splits)
  have full: "s \<in> set ?sel"
    if "s \<in> set (iter_stochastic_nodes tr)" "py_re_fullmatch compile p (site_name s) = Inr True"
    for s
    using that assms(2) by (auto simp: py_re_fullmatch_def)
  show ?thesis using sel grp full by blast
qed

subsection \<open>The engine of the examples\<close>

lemma star_Cons:
  "c # w \<in> star A \<longleftrightarrow> (\<exists>u v. w = u @ v \<and> c # u \<in> A \<and> v \<in> star A)"
proof
  assume "c # w \<in> star A"
  then show "\<exists>u v. w = u @ v \<and> c # u \<in> A \<and> v \<in> star A"
  proof (induction "c # w" rule: star.induct)
    case (star_step u v)
    show ?case
    proof (cases u)
      case Nil
      then show ?thesis using star_step by simp
    next
      case (Cons d u')
      then have "w = u' @ v" "c # u' \<in> A" using star_step by auto
      then show ?thesis using star_step.hyps(2) by blast
    qed
  qed
next
  assume "\<exists>u v. w = u @ v \<and> c # u \<in> A \<and> v \<in> star A"
  then obtain u v where "w = u @ v" "c # u \<in> A" "v \<in> star A" by blast
  then show "c # w \<in> star A" using star_step[of "c # u" A v] by simp
qed

lemma nullable_iff: "nullable r \<longleftrightarrow> [] \<in> lang r"
  by (induction r) (auto intro: star_nil)

lemma lang_SeqI: "u \<in> lang r \<Longrightarrow> v \<in> lang s \<Longrightarrow> u @ v \<in> lang (Seq r s)"
  by simp blast

lemma deriv_iff: "w \<in> lang (deriv c r) \<longleftrightarrow> c # w \<in> lang r"
proof (induction r arbitrary: w)
  case (Seq r s)
  show ?case
  proof (cases "nullable r")
    case True
    then have n: "[] \<in> lang r" by (simp add: nullable_iff)
    show ?thesis
    proof
      assume "w \<in> lang (deriv c (Seq r s))"
      then consider u v where "w = u @ v" "c # u \<in> lang r" "v \<in> lang s" | "c # w \<in> lang s"
        using True Seq by auto
      then show "c # w \<in> lang (Seq r s)"
      proof cases
        case 1
        then show ?thesis using lang_SeqI[of "c # u" r v s] by simp
      next
        case 2
        then show ?thesis using lang_SeqI[OF n, of "c # w" s] by simp
      qed
    next
      assume "c # w \<in> lang (Seq r s)"
      then obtain u v where uv: "c # w = u @ v" "u \<in> lang r" "v \<in> lang s" by auto
      show "w \<in> lang (deriv c (Seq r s))"
      proof (cases u)
        case Nil
        then show ?thesis using uv True Seq by auto
      next
        case (Cons d u')
        then have "w = u' @ v" "c # u' \<in> lang r" using uv by auto
        then show ?thesis using uv True Seq by auto
      qed
    qed
  next
    case False
    then have n: "[] \<notin> lang r" by (simp add: nullable_iff)
    show ?thesis
    proof
      assume "w \<in> lang (deriv c (Seq r s))"
      then obtain u v where "w = u @ v" "c # u \<in> lang r" "v \<in> lang s"
        using False Seq by auto
      then show "c # w \<in> lang (Seq r s)" using lang_SeqI[of "c # u" r v s] by simp
    next
      assume "c # w \<in> lang (Seq r s)"
      then obtain u v where uv: "c # w = u @ v" "u \<in> lang r" "v \<in> lang s" by auto
      then obtain u' where "u = c # u'" "w = u' @ v" using n by (cases u) auto
      then show "w \<in> lang (deriv c (Seq r s))" using uv False Seq by auto
    qed
  qed
next
  case (Star r)
  show ?case using Star by (auto simp: star_Cons)
qed auto

lemma match_full_iff: "match_full r s \<longleftrightarrow> s \<in> lang r"
  by (induction s arbitrary: r) (simp_all add: nullable_iff deriv_iff)

text \<open>
  The engine of the examples reads a pattern as an expression; a string then passes
  \<^verbatim>\<open>re.match\<close> exactly when one of its prefixes is in the language of the expression.
\<close>

lemma fragment_match_iff:
  assumes "read_pattern p = Some r"
  shows "py_re_match fragment_engine p s = Inr (\<exists>u. prefix u s \<and> u \<in> lang r)"
proof -
  have "(\<exists>j \<le> length s. take j s \<in> lang r) \<longleftrightarrow> (\<exists>u. prefix u s \<and> u \<in> lang r)"
  proof
    assume "\<exists>j \<le> length s. take j s \<in> lang r"
    then show "\<exists>u. prefix u s \<and> u \<in> lang r" using take_is_prefix by blast
  next
    assume "\<exists>u. prefix u s \<and> u \<in> lang r"
    then obtain u where u: "prefix u s" "u \<in> lang r" by blast
    then have "take (length u) s = u" "length u \<le> length s"
      by (auto simp: prefix_def)
    then show "\<exists>j \<le> length s. take j s \<in> lang r" using u(2) by auto
  qed
  then show ?thesis
    using assms
    by (simp add: py_re_match_def fragment_engine_def list_ex_upto match_full_iff del: upt_Suc)
qed

lemma read_examples:
  "read_pattern ''a'' = Some (Seq (Chr CHR ''a'') Eps)"
  "read_pattern ''b'' = Some (Seq (Chr CHR ''b'') Eps)"
  "read_pattern ''.*'' = Some (Seq (Star Dot) Eps)"
  by (simp_all add: read_pattern_def special_def atom_def)

lemma match_examples:
  "py_re_match fragment_engine ''a'' ''ab'' = Inr True"
  "py_re_match fragment_engine ''a'' ''b'' = Inr False"
  "py_re_match fragment_engine ''b'' ''ab'' = Inr False"
  "py_re_match fragment_engine ''b'' ''b'' = Inr True"
  "py_re_match fragment_engine ''.*'' ''ab'' = Inr True"
  "py_re_match fragment_engine ''.*'' ''b'' = Inr True"
  by (simp_all add: py_re_match_def fragment_engine_def read_examples)

theorem group_selects_by_prefix_witness:
  "select_sites (re_match example_substrate ''a'') (iter_stochastic_nodes catalog_ab_b) =
     Inr [scalar_site ''ab'' 1] \<and>
   py_re_fullmatch fragment_engine ''a'' ''ab'' = Inr False \<and>
   fst (EasyGuide_group example_substrate ''a'' state_ab_b) =
     Inr (0, \<lparr>group_sites = [scalar_site ''ab'' 1], group_frames = [], group_event_shape = [1]\<rparr>) \<and>
   select_sites (re_match example_substrate ''b'') (iter_stochastic_nodes catalog_ab_b) =
     Inr [scalar_site ''b'' 2] \<and>
   py_re_search fragment_engine ''b'' ''ab'' = Inr True \<and>
   select_sites (re_match example_substrate ''.*'') (iter_stochastic_nodes catalog_ab_b) =
     Inr catalog_ab_b"
proof -
  let ?M = "\<lambda>s i j. i \<le> j \<and> j \<le> length s \<and>
      match_full (Seq (Chr CHR ''a'') Eps) (take (j - i) (drop i s))"
  have st: "state_ab_b = EasyGuide_init\<lparr>prototype_trace := Some catalog_ab_b\<rparr>"
    by (simp add: state_ab_b_def EasyGuide_setup_prototype_def iter_stochastic_nodes_def
        catalog_ab_b_def scalar_site_def EasyGuide_init_def)
  have h1: "re_match example_substrate ''a'' = py_re_match fragment_engine ''a''"
    by (simp add: example_substrate_def)
  have h2: "fragment_engine ''a'' = Inr ?M"
    by (simp add: fragment_engine_def read_examples)
  have h3: "groups state_ab_b ''a'' = None" by (simp add: st EasyGuide_init_def)
  have h4: "prototype_trace state_ab_b = Some catalog_ab_b" by (simp add: st)
  have sa: "select_sites (re_match example_substrate ''a'') (iter_stochastic_nodes catalog_ab_b) =
     Inr [scalar_site ''ab'' 1]"
    by (simp add: example_substrate_def iter_stochastic_nodes_def catalog_ab_b_def
        scalar_site_def match_examples)
  have sb: "select_sites (re_match example_substrate ''b'') (iter_stochastic_nodes catalog_ab_b) =
     Inr [scalar_site ''b'' 2]"
    by (simp add: example_substrate_def iter_stochastic_nodes_def catalog_ab_b_def
        scalar_site_def match_examples)
  have sd: "select_sites (re_match example_substrate ''.*'') (iter_stochastic_nodes catalog_ab_b) =
     Inr catalog_ab_b"
    by (simp add: example_substrate_def iter_stochastic_nodes_def catalog_ab_b_def
        scalar_site_def match_examples)
  have fa: "py_re_fullmatch fragment_engine ''a'' ''ab'' = Inr False"
    by (simp add: py_re_fullmatch_def fragment_engine_def read_examples)
  have sr: "py_re_search fragment_engine ''b'' ''ab'' = Inr True"
    by (simp add: py_re_search_def fragment_engine_def read_examples)
  have ga: "fst (EasyGuide_group example_substrate ''a'' state_ab_b) =
     Inr (0, \<lparr>group_sites = [scalar_site ''ab'' 1], group_frames = [], group_event_shape = [1]\<rparr>)"
    using sa
    by (simp add: EasyGuide_group_def st EasyGuide_init_def Group_init_def common_frames_def
        scalar_site_def numel_def)
  show ?thesis
    using sa fa ga sb sr sd group_selects_by_prefix[OF h1 h2 h3 h4]
    by simp
qed

section \<open>Point estimates\<close>

subsection \<open>Repeating the initial value\<close>

lemma concat_blocks_drop:
  "\<forall>x \<in> set xs. length (f x) = k \<Longrightarrow> j < length xs \<Longrightarrow> r + m \<le> k \<Longrightarrow>
   take m (drop (j * k + r) (concat (map f xs))) = take m (drop r (f (xs ! j)))"
proof (induction xs arbitrary: j)
  case Nil
  then show ?case by simp
next
  case (Cons x xs)
  show ?case
  proof (cases j)
    case 0
    then show ?thesis using Cons.prems by simp
  next
    case (Suc j')
    have "drop (j * k + r) (f x @ concat (map f xs)) = drop (j' * k + r) (concat (map f xs))"
      using Cons.prems Suc by (simp add: algebra_simps)
    then show ?thesis using Cons.IH[of j'] Cons.prems Suc by simp
  qed
qed

lemma length_concat_uniform:
  "\<forall>x \<in> set xs. length (f x) = k \<Longrightarrow> length (concat (map f xs)) = length xs * k"
  by (induction xs) auto

lemma numel_split:
  "d < length s \<Longrightarrow> numel s = numel (take d s) * (s ! d) * numel (drop (Suc d) s)"
proof -
  assume "d < length s"
  then have "s = take d s @ (s ! d) # drop (Suc d) s" by (rule id_take_nth_drop)
  then have "prod_list s = prod_list (take d s @ (s ! d) # drop (Suc d) s)" by simp
  then show ?thesis by (simp add: numel_def)
qed

lemma length_block:
  assumes "wf_tensor t" and "d < length (shape t)" and "q < numel (take d (shape t))"
    and "i < shape t ! d"
  shows "length (block t d q i) = numel (drop (Suc d) (shape t))"
proof -
  let ?n = "shape t ! d" and ?inner = "numel (drop (Suc d) (shape t))"
  have "q * ?n + i + 1 \<le> (q + 1) * ?n" using assms(4) by simp
  also have "\<dots> \<le> numel (take d (shape t)) * ?n"
    using assms(3) by (intro mult_le_mono1) simp
  finally have "(q * ?n + i + 1) * ?inner \<le> numel (take d (shape t)) * ?n * ?inner"
    by (rule mult_le_mono1)
  also have "\<dots> = length (data t)"
    using assms(1,2) numel_split[of d "shape t"] by (simp add: wf_tensor_def)
  finally have "(q * ?n + i) * ?inner + ?inner \<le> length (data t)" by (simp add: algebra_simps)
  then show ?thesis by (simp add: block_def)
qed

lemma index_select_blocks:
  assumes wf: "wf_tensor t" and d: "d < length (shape t)"
    and ind: "\<forall>i \<in> set ind. i < shape t ! d"
    and sh: "shape t' = (shape t)[d := length ind]"
    and dt: "data t' = concat (map (\<lambda>q. concat (map (\<lambda>i. block t d q i) ind))
                                [0..<numel (take d (shape t))])"
  shows "wf_tensor t'"
    and "q < numel (take d (shape t)) \<Longrightarrow> j < length ind \<Longrightarrow> block t' d q j = block t d q (ind ! j)"
proof -
  let ?inner = "numel (drop (Suc d) (shape t))" and ?outer = "numel (take d (shape t))"
  have len_in: "length (block t d q i) = ?inner" if "q < ?outer" "i \<in> set ind" for q i
    using length_block[OF wf d that(1)] ind that(2) by simp
  have len_row: "length (concat (map (\<lambda>i. block t d q i) ind)) = length ind * ?inner"
    if "q < ?outer" for q
    using len_in[OF that] by (intro length_concat_uniform) simp
  have len_all: "length (data t') = ?outer * (length ind * ?inner)"
    unfolding dt using len_row length_concat_uniform[of "[0..<?outer]"
        "\<lambda>q. concat (map (\<lambda>i. block t d q i) ind)" "length ind * ?inner"]
    by simp
  have tk: "take d (shape t') = take d (shape t)" and dr: "drop (Suc d) (shape t') = drop (Suc d) (shape t)"
    and nt: "shape t' ! d = length ind" and d': "d < length (shape t')"
    using d by (simp_all add: sh)
  show "wf_tensor t'"
    using len_all numel_split[OF d'] by (simp add: wf_tensor_def tk dr nt)
  show "block t' d q j = block t d q (ind ! j)" if q: "q < ?outer" and j: "j < length ind"
  proof -
    have "block t' d q j = take ?inner (drop (q * (length ind * ?inner) + j * ?inner) (data t'))"
      by (simp add: block_def dr nt algebra_simps)
    also have "\<dots> = take ?inner (drop (j * ?inner) (concat (map (\<lambda>i. block t d q i) ind)))"
    proof -
      have "Suc j * ?inner \<le> length ind * ?inner"
        using j by (intro mult_le_mono1) simp
      then have fit: "j * ?inner + ?inner \<le> length ind * ?inner" by simp
      have uni: "\<forall>x \<in> set [0..<?outer].
          length (concat (map (\<lambda>i. block t d x i) ind)) = length ind * ?inner"
        using len_row by simp
      have "q < length [0..<?outer]" using q by simp
      from concat_blocks_drop[OF uni this fit] q show ?thesis
        unfolding dt by simp
    qed
    also have "\<dots> = take ?inner (block t d q (ind ! j))"
      using concat_blocks_drop[of ind "\<lambda>i. block t d q i" ?inner j 0 ?inner] len_in[OF q] j
      by simp
    also have "\<dots> = block t d q (ind ! j)"
      using len_in[OF q, of "ind ! j"] j by simp
    finally show ?thesis .
  qed
qed

lemma py_index_less: "py_index i n = Inr d \<Longrightarrow> d < n"
  by (auto simp: py_index_def Let_def split: if_splits)

text \<open>
  Claim C4. In \<^verbatim>\<open>map_estimate\<close>, take a frame whose plate is already active, with an initial
  value \<open>v\<close> present, the plate's subsample size positive and below its size, and \<open>v\<close> of
  subsample-size extent along the plate's dimension \<open>d\<close>. Then the loop goes on with an
  initial value \<open>v'\<close> whose extent along \<open>d\<close> is the full size and whose sub-tensor at
  index \<open>j\<close> along \<open>d\<close> is the sub-tensor of \<open>v\<close> at index \<open>j mod subsample_size\<close>.
\<close>

theorem map_estimate_repeats_init:
  assumes "wf_tensor v"
    and "py_index (plate_dim plate - event_dim) (length (shape v)) = Inr d"
    and "int (shape v ! d) = plate_subsample_size plate"
    and "0 < plate_subsample_size plate"
    and "plate_subsample_size plate < plate_size plate"
    and "plates st (frame_name frame) = Some (i, plate)"
    and "i \<in> set (PYRO_STACK st)"
  shows "\<exists>v'. repeat_init plate event_dim v = Inr v' \<and>
           map_estimate_frames sub event_dim (frame # fs) (Some v) st =
             map_estimate_frames sub event_dim fs (Some v') st \<and>
           wf_tensor v' \<and>
           shape v' = (shape v)[d := nat (plate_size plate)] \<and>
           (\<forall>q < numel (take d (shape v)). \<forall>j < nat (plate_size plate).
              block v' d q j = block v d q (j mod nat (plate_subsample_size plate)))"
proof -
  let ?ss = "plate_subsample_size plate" and ?n = "nat (plate_size plate)"
  let ?ind = "map (\<lambda>i. int i mod ?ss) [0..<?n]"
  let ?nind = "map (\<lambda>i. i mod nat ?ss) [0..<?n]"
  define v' where "v' = \<lparr>shape = (shape v)[d := length ?ind],
      data = concat (map (\<lambda>q. concat (map (\<lambda>i. block v d q (nat i)) ?ind))
                       [0..<numel (take d (shape v))])\<rparr>"
  have d: "d < length (shape v)" using assms(2) by (rule py_index_less)
  have in_range: "\<not> (\<exists>i \<in> set ?ind. i < 0 \<or> int (shape v ! d) \<le> i)"
    using assms(3,4) pos_mod_sign[of ?ss] pos_mod_bound[of ?ss]
    by (auto simp: not_less[symmetric] simp del: not_less)
  have sel: "index_select v (plate_dim plate - event_dim) ?ind = Inr v'"
    using assms(2) in_range unfolding index_select_def v'_def by simp
  have rep: "repeat_init plate event_dim v = Inr v'"
    using assms(2,3,4,5) sel by (simp add: repeat_init_def tensor_size_def)
  have step: "map_estimate_frames sub event_dim (frame # fs) (Some v) st =
      map_estimate_frames sub event_dim fs (Some v') st"
    using assms(5,6,7) rep by (simp add: EasyGuide_plate_def)
  have nat_ind: "map nat ?ind = ?nind"
    using assms(4) by (simp add: nat_mod_distrib)
  have dat: "data v' = concat (map (\<lambda>q. concat (map (\<lambda>i. block v d q i) ?nind))
      [0..<numel (take d (shape v))])"
    unfolding v'_def nat_ind[symmetric] by (simp add: comp_def)
  have shp: "shape v' = (shape v)[d := length ?nind]" by (simp add: v'_def)
  have ss_nat: "nat ?ss = shape v ! d" using assms(3) by simp
  have rng: "\<forall>i \<in> set ?nind. i < shape v ! d"
    using assms(4) unfolding ss_nat[symmetric] by auto
  have wf': "wf_tensor v'"
    by (rule index_select_blocks(1)[OF assms(1) d rng shp dat])
  have blk: "block v' d q j = block v d q (j mod nat ?ss)"
    if "q < numel (take d (shape v))" "j < ?n" for q j
    using index_select_blocks(2)[OF assms(1) d rng shp dat that(1), of j] that(2) by simp
  show ?thesis
    using rep step wf' blk by (intro exI[of _ v']) (simp add: v'_def)
qed

lemma repeat_init_012:
  "repeat_init plate_7_3 0 init_012 = Inr \<lparr>shape = [7], data = [0, 1, 2, 0, 1, 2, 0]\<rparr>"
  by (simp add: repeat_init_def tensor_size_def py_index_def plate_7_3_def init_012_def
      index_select_def block_def numel_def upt_7)

theorem map_estimate_repeats_init_witness:
  "repeat_init plate_7_3 0 init_012 = Inr \<lparr>shape = [7], data = [0, 1, 2, 0, 1, 2, 0]\<rparr> \<and>
   map_estimate_frames example_substrate 0 [frame_p] (Some init_012) state_p_active =
     (Inr (Some \<lparr>shape = [7], data = [0, 1, 2, 0, 1, 2, 0]\<rparr>), state_p_active) \<and>
   block \<lparr>shape = [7], data = [0, 1, 2, 0, 1, 2, 0::int]\<rparr> 0 0 4 = block init_012 0 0 1"
proof -
  have h1: "wf_tensor init_012" by (simp add: wf_tensor_def init_012_def numel_def)
  have h2: "py_index (plate_dim plate_7_3 - 0) (length (shape init_012)) = Inr 0"
    by (simp add: py_index_def plate_7_3_def init_012_def)
  have h3: "int (shape init_012 ! 0) = plate_subsample_size plate_7_3"
    by (simp add: plate_7_3_def init_012_def)
  have h4: "0 < plate_subsample_size plate_7_3" by (simp add: plate_7_3_def)
  have h5: "plate_subsample_size plate_7_3 < plate_size plate_7_3" by (simp add: plate_7_3_def)
  have h6: "plates state_p_active (frame_name frame_p) = Some (0, plate_7_3)"
    by (simp add: state_p_active_def frame_p_def)
  have h7: "0 \<in> set (PYRO_STACK state_p_active)" by (simp add: state_p_active_def)
  from map_estimate_repeats_init[OF h1 h2 h3 h4 h5 h6 h7, of example_substrate "[]"]
  obtain v' where r: "repeat_init plate_7_3 0 init_012 = Inr v'"
    and m: "map_estimate_frames example_substrate 0 [frame_p] (Some init_012) state_p_active =
          map_estimate_frames example_substrate 0 [] (Some v') state_p_active"
    and b: "\<forall>q < numel (take 0 (shape init_012)). \<forall>j < nat (plate_size plate_7_3).
          block v' 0 q j = block init_012 0 q (j mod nat (plate_subsample_size plate_7_3))"
    by blast
  have v': "v' = \<lparr>shape = [7], data = [0, 1, 2, 0, 1, 2, 0]\<rparr>"
    using r repeat_init_012 by simp
  have "block v' 0 0 4 = block init_012 0 0 (4 mod nat (plate_subsample_size plate_7_3))"
    using b by (simp add: numel_def plate_7_3_def)
  then have "block v' 0 0 4 = block init_012 0 0 1" by (simp add: plate_7_3_def)
  then show ?thesis using r m v' by simp
qed

subsection \<open>Seeding the parameter store\<close>









section \<open>Unpacking a group sample\<close>

lemma dict_set_subset: "set (dict_set k v kvs) \<subseteq> insert (k, v) (set kvs)"
  by (induction kvs) auto

lemma dict_set_keys: "fst ` set (dict_set k v kvs) = insert k (fst ` set kvs)"
  by (induction kvs) auto

lemma reshape_shape: "reshape t s = Inr u \<Longrightarrow> shape u = s"
  by (auto simp: reshape_def split: if_splits)

lemma unpack_sites_result:
  assumes bij: "\<forall>s t. shape (biject_to sub s t) = shape t"
    and rep: "\<forall>s t. shape (pyro_sample_Delta sub s t) = shape t"
  shows "unpack_sites sub gz bs sites pos zs st = (Inr (zs', pos'), st') \<Longrightarrow>
     (\<forall>(n, z) \<in> set zs'. (n, z) \<in> set zs \<or>
        (\<exists>s \<in> set sites. n = site_name s \<and> shape z = bs @ fn_event_shape s)) \<and>
     fst ` set zs' = fst ` set zs \<union> site_name ` set sites"
proof (induction sites arbitrary: pos zs st)
  case Nil
  then show ?case by auto
next
  case (Cons site sites)
  from Cons.prems obtain sl where sl: "slice_last gz pos (pos + numel (fn_event_shape site)) = Inr sl"
    by (auto split: sum.splits)
  from Cons.prems sl obtain uz where uz: "reshape sl (bs @ fn_event_shape site) = Inr uz"
    by (auto split: sum.splits)
  obtain x st1 where rf: "replay_frames sub (cond_indep_stack site) st = (x, st1)"
    by (cases "replay_frames sub (cond_indep_stack site) st")
  from Cons.prems sl uz rf obtain u where x: "x = Inr u"
    by (cases x) auto
  let ?z = "pyro_sample_Delta sub site (biject_to sub site uz)"
  let ?zs = "dict_set (site_name site) ?z zs"
  have rec: "unpack_sites sub gz bs sites (pos + numel (fn_event_shape site)) ?zs
               (st1\<lparr>PYRO_STACK := PYRO_STACK st\<rparr>) = (Inr (zs', pos'), st')"
    using Cons.prems sl uz rf x by simp
  have shz: "shape ?z = bs @ fn_event_shape site"
    using bij rep reshape_shape[OF uz] by simp
  from Cons.IH[OF rec]
  have ih1: "\<forall>(n, z) \<in> set zs'. (n, z) \<in> set ?zs \<or>
        (\<exists>s \<in> set sites. n = site_name s \<and> shape z = bs @ fn_event_shape s)"
    and ih2: "fst ` set zs' = fst ` set ?zs \<union> site_name ` set sites"
    by blast+
  have a: "\<forall>(n, z) \<in> set zs'. (n, z) \<in> set zs \<or>
        (\<exists>s \<in> set (site # sites). n = site_name s \<and> shape z = bs @ fn_event_shape s)"
  proof -
    have "(n, z) \<in> set zs \<or>
        (\<exists>s \<in> set (site # sites). n = site_name s \<and> shape z = bs @ fn_event_shape s)"
      if nz: "(n, z) \<in> set zs'" for n z
    proof -
      from ih1 nz consider "(n, z) \<in> set ?zs"
        | "\<exists>s \<in> set sites. n = site_name s \<and> shape z = bs @ fn_event_shape s"
        by blast
      then show ?thesis
      proof cases
        case 1
        then have "(n, z) \<in> set zs \<or> (n, z) = (site_name site, ?z)"
          using dict_set_subset[of "site_name site" ?z zs] by blast
        then show ?thesis using shz by auto
      next
        case 2
        then show ?thesis by auto
      qed
    qed
    then show ?thesis by blast
  qed
  have b: "fst ` set zs' = fst ` set zs \<union> site_name ` set (site # sites)"
    using ih2 by (simp add: dict_set_keys)
  show ?case using a b by blast
qed

text \<open>
  Claim C1 says that every unpacked value has the shape of its site's batch shape followed
  by its event shape, both from the catalog. A site recorded with batch shape \<open>[4]\<close> in
  a plate, unpacked from a packed sample of shape \<open>[2, 1]\<close> (the plate subsampled to two),
  comes back with shape \<open>[2]\<close>: the reshape takes the batch shape of the packed sample.
\<close>

theorem sample_shape_counterexample:
  "Group_init [site_xq] = Inr group_xq \<and>
   fst (Group_sample example_substrate group_xq packed_2_1 EasyGuide_init) =
     Inr (packed_2_1, [(''x'', \<lparr>shape = [2], data = [10, 20]\<rparr>)]) \<and>
   shape \<lparr>shape = [2], data = [10, 20::int]\<rparr> \<noteq> fn_batch_shape site_xq @ fn_event_shape site_xq"
  by (simp add: Group_init_def Group_sample_def site_xq_def group_xq_def frame_q_def
      common_frames_def py_index_def numel_def packed_2_1_def slice_last_def reshape_def upt_2
      EasyGuide_plate_def EasyGuide_init_def example_substrate_def example_plate_def no_args_def)

text \<open>
  Claim C1, amended. Take a group whose sites have no batch dimensions besides the frames
  the group shares, and a substrate whose bijections and point-mass replays keep the shape
  of their argument. When \<^verbatim>\<open>Group.sample\<close> returns, it returns the packed sample as drawn and
  one value for each member site, of shape \<^verbatim>\<open>guide_z.shape[:-1]\<close>, the batch shape of the packed
  sample at the call, followed by the site's event shape from the catalog. The site's
  catalog batch shape does not enter the reshape.
\<close>

theorem sample_shapes:
  assumes "Group_sample sub g guide_z st = (Inr (z, model_zs), st')"
    and "shared_batch_only g"
    and "\<forall>s t. shape (biject_to sub s t) = shape t"
    and "\<forall>s t. shape (pyro_sample_Delta sub s t) = shape t"
  shows "z = guide_z \<and>
         fst ` set model_zs = site_name ` set (group_sites g) \<and>
         (\<forall>(n, v) \<in> set model_zs.
            \<exists>s \<in> set (group_sites g).
              n = site_name s \<and> shape v = butlast (shape guide_z) @ fn_event_shape s)"
proof -
  obtain x st1 where
    u: "unpack_sites sub guide_z (butlast (shape guide_z)) (group_sites g) 0 [] st = (x, st1)"
    by (cases "unpack_sites sub guide_z (butlast (shape guide_z)) (group_sites g) 0 [] st")
  from assms(1) u obtain pos where
    x: "x = Inr (model_zs, pos)" and z: "z = guide_z" and st: "st1 = st'"
    by (cases x) (auto simp: Group_sample_def)
  from unpack_sites_result[OF assms(3,4) u[unfolded x st]] z
  show ?thesis by auto
qed

theorem sample_shapes_witness:
  "Group_sample example_substrate group_xq packed_2_1 EasyGuide_init =
     (Inr (packed_2_1, [(''x'', \<lparr>shape = [2], data = [10, 20]\<rparr>)]),
      EasyGuide_init\<lparr>plates := [''q'' \<mapsto> (0, \<lparr>plate_name = ''q'', plate_size = - 1,
         plate_subsample_size = - 1, plate_dim = - 1\<rparr>)], next_id := 1\<rparr>) \<and>
   shared_batch_only group_xq \<and>
   butlast (shape packed_2_1) @ fn_event_shape site_xq = [2]"
proof -
  have h1: "Group_sample example_substrate group_xq packed_2_1 EasyGuide_init =
     (Inr (packed_2_1, [(''x'', \<lparr>shape = [2], data = [10, 20]\<rparr>)]),
      EasyGuide_init\<lparr>plates := [''q'' \<mapsto> (0, \<lparr>plate_name = ''q'', plate_size = - 1,
         plate_subsample_size = - 1, plate_dim = - 1\<rparr>)], next_id := 1\<rparr>)"
    by (simp add: Group_sample_def site_xq_def group_xq_def frame_q_def
      numel_def packed_2_1_def slice_last_def reshape_def upt_2
      EasyGuide_plate_def EasyGuide_init_def example_substrate_def example_plate_def no_args_def)
  have h2: "shared_batch_only group_xq"
    by (simp add: shared_batch_only_def group_xq_def site_xq_def frame_q_def py_index_def numel_def)
  have h3: "\<forall>s t. shape (biject_to example_substrate s t) = shape t"
    by (simp add: example_substrate_def)
  have h4: "\<forall>s t. shape (pyro_sample_Delta example_substrate s t) = shape t"
    by (simp add: example_substrate_def)
  show ?thesis
    using h1 h2 sample_shapes[OF h1 h2 h3 h4]
    by (simp add: packed_2_1_def site_xq_def)
qed

text \<open>
  Claim C2 says that the spans \<^verbatim>\<open>Group.sample\<close> consumes add up to the group's
  \<^verbatim>\<open>event_shape\<close>. Take a group of two scalar-event sites in two different plates, of
  sizes 7 and 4: the plates are not shared, so \<^verbatim>\<open>Group.__init__\<close> counts every batch element
  and declares 11 packed elements, while the loop of \<^verbatim>\<open>Group.sample\<close> advances by the event
  element count alone and ends at position 2.
\<close>

theorem group_span_mismatch:
  "Group_init [site_ap, site_bq] =
     Inr \<lparr>group_sites = [site_ap, site_bq], group_frames = [], group_event_shape = [11]\<rparr> \<and>
   fst (unpack_sites example_substrate packed_11 (butlast (shape packed_11)) [site_ap, site_bq]
          0 [] EasyGuide_init) =
     Inr ([(''a'', \<lparr>shape = [], data = [0]\<rparr>), (''b'', \<lparr>shape = [], data = [1]\<rparr>)], 2)"
  by (simp add: Group_init_def site_ap_def site_bq_def frame_p_def frame_q_def
      common_frames_def numel_def packed_11_def slice_last_def reshape_def
      EasyGuide_plate_def EasyGuide_init_def example_substrate_def example_plate_def no_args_def)

end
